theory Spec2Isabelle
  imports Complex_Main "HOL-Library.Word" "HOL-Library.Multiset" "HOL-Library.Sublist"
begin

chapter \<open>The canvas editor of Image-Edit-Studio (src/components/SimpleEditor.tsx)\<close>

text \<open>
  The editor is one React component.  Its state (the \<open>useState\<close> cells and the
  \<open>useRef\<close> cells) is modelled as one record, every handler as a function from state
  to state.  JavaScript numbers are modelled as real numbers: rounding is outside the
  model, and wherever the source would leave the finite numbers (a division by zero,
  arithmetic on a missing property) the model returns the error value \<open>NonFinite\<close>
  instead of a state.  A property access on \<open>null\<close> or \<open>undefined\<close> throws in
  JavaScript; the model returns \<open>TypeError\<close>.  The other errors are the
  exceptions of the canvas API.
\<close>

section \<open>Data model\<close>

datatype error = TypeError | NonFinite | RangeError | IndexSizeError | SyntaxError

record CropData =
  c_top :: real
  c_right :: real
  c_bottom :: real
  c_left :: real

datatype border_style = Solid | Dashed | Dotted

record BorderData =
  b_width :: real
  b_style :: border_style
  b_color :: string

record ShadowData =
  sh_color :: string
  sh_opacity :: real
  sh_x :: real
  sh_y :: real
  sh_blur :: real

datatype text_align = AlignLeft | AlignCenter | AlignRight

record TextElement =
  content :: string
  fontSize :: real
  fontFamily :: string
  txt_color :: string
  align :: text_align
  shadowEnabled :: bool

record ImageElement =
  img_src :: string
  img_width :: real
  img_height :: real
  img_aspectRatio :: real
  img_borderRadius :: "real option"

datatype shape_type = Rectangle | Circle

record ShapeElement =
  shapeType :: shape_type
  shp_width :: real
  shp_height :: real
  shp_color :: string
  shp_borderRadius :: "real option"

text \<open>\<open>EditorElement = TextElement | ImageElement | ShapeElement\<close>: the fields of
  \<open>BaseElement\<close> are shared, the field \<open>type\<close> is the constructor of the variant.\<close>

datatype element_variant = TextV TextElement | ImageV ImageElement | ShapeV ShapeElement

record EditorElement =
  el_id :: string
  el_x :: real
  el_y :: real
  rotation :: real
  zIndex :: nat
  crop :: "CropData option"
  border :: "BorderData option"
  shadow :: "ShadowData option"
  el_opacity :: "real option"
  variant :: element_variant

datatype background_type = BgImage | BgSolid | BgGradient

record BackgroundImage =
  bgi_src :: string
  bgi_x :: real
  bgi_y :: real
  bgi_scale :: real

datatype gradient_type = Linear | Radial

record GradientData =
  g_type :: gradient_type
  g_direction :: string
  g_colors :: "string list"

record BackgroundState =
  bg_type :: background_type
  bg_image :: "BackgroundImage option"
  bg_color :: "string option"
  bg_gradient :: "GradientData option"

record Overlay =
  ov_color :: string
  ov_opacity :: real

datatype crop_handle = LT | RT | LB | RB

text \<open>\<open>initialElementState.current\<close> is of type \<open>any\<close>: \<open>null\<close>, a copy of the
  background image record, a copy of an element, or \<open>{}\<close> (the spread of the
  \<open>undefined\<close> that \<open>find\<close> returns for a missing id).\<close>

datatype snapshot = SnapNull | SnapEmpty | SnapBg BackgroundImage | SnapEl EditorElement

text \<open>One stamp of the eraser brush on the scratch canvas (\<open>drawPoint\<close>).\<close>

record Stamp =
  st_x :: real
  st_y :: real
  st_radius :: real
  st_hardness :: real
  st_opacity :: real

text \<open>The scratch canvas of the eraser modal: the image drawn into it when the modal
  opened (none for a selection that is not an image) and the stamps painted since.\<close>

record EraserCanvas =
  ec_base :: "string option"
  ec_stamps :: "Stamp list"

record EditorState =
  canvasDimensions :: "real \<times> real"
  background :: BackgroundState
  overlay :: Overlay
  elements :: "EditorElement list"
  selectedId :: "string option"
  isDragging :: bool
  isResizing :: bool
  isRotating :: bool
  isCropping :: bool
  isCroppingDrag :: "crop_handle option"
  isErasing :: bool
  eraserBrushSize :: real
  eraserHardness :: real
  eraserOpacity :: real
  eraserCanvas :: "EraserCanvas option"
  eraserLastPos :: "(real \<times> real) option"
  dragStart :: "real \<times> real"
  initialElementState :: snapshot

text \<open>The values of the \<open>useState\<close> and \<open>useRef\<close> initialisers.\<close>

definition initialState :: EditorState where
  "initialState =
     \<lparr>canvasDimensions = (500, 500),
      background = \<lparr>bg_type = BgSolid, bg_image = None, bg_color = Some ''#ffffff'',
                    bg_gradient = None\<rparr>,
      overlay = \<lparr>ov_color = ''#000000'', ov_opacity = 0\<rparr>,
      elements = [],
      selectedId = None,
      isDragging = False, isResizing = False, isRotating = False,
      isCropping = False, isCroppingDrag = None,
      isErasing = False, eraserBrushSize = 20, eraserHardness = 1, eraserOpacity = 1,
      eraserCanvas = None, eraserLastPos = None,
      dragStart = (0, 0),
      initialElementState = SnapNull\<rparr>"

section \<open>Adding elements\<close>

text \<open>\<open>Date.now().toString()\<close>: the decimal digits of the clock reading.\<close>

definition digit :: "nat \<Rightarrow> char" where
  "digit d = char_of (48 + d)"

fun toString :: "nat \<Rightarrow> string" where
  "toString n = (if n < 10 then [digit n] else toString (n div 10) @ [digit (n mod 10)])"

declare toString.simps [simp del]

definition zeroCrop :: CropData where
  "zeroCrop = \<lparr>c_top = 0, c_right = 0, c_bottom = 0, c_left = 0\<rparr>"

text \<open>\<open>addImageElement\<close>, at the moment \<open>img.onload\<close> fires: \<open>iw\<close> and \<open>ih\<close> are the
  decoded \<open>img.width\<close> and \<open>img.height\<close>, \<open>now\<close> is \<open>Date.now()\<close>.  The handler
  works on the state it captured when \<open>addImageElement\<close> was called; the model takes
  the call and the load as one step.  A zero height makes the aspect ratio infinite or
  \<open>NaN\<close>.\<close>

definition addImageElement :: "nat \<Rightarrow> string \<Rightarrow> nat \<Rightarrow> nat \<Rightarrow> EditorState \<Rightarrow> error + EditorState" where
  "addImageElement now src iw ih s =
     (if ih = 0 then Inl NonFinite
      else
        let aspectRatio = real iw / real ih;
            baseSize = 200;
            width = (if aspectRatio \<ge> 1 then baseSize else baseSize * aspectRatio);
            height = (if aspectRatio \<ge> 1 then baseSize / aspectRatio else baseSize);
            newEl = \<lparr>el_id = toString now,
                     el_x = fst (canvasDimensions s) / 2,
                     el_y = snd (canvasDimensions s) / 2,
                     rotation = 0,
                     zIndex = length (elements s),
                     crop = Some zeroCrop,
                     border = Some \<lparr>b_width = 0, b_style = Solid, b_color = ''#000000''\<rparr>,
                     shadow = Some \<lparr>sh_color = ''#000000'', sh_opacity = 0.5, sh_x = 0,
                                     sh_y = 0, sh_blur = 0\<rparr>,
                     el_opacity = None,
                     variant = ImageV \<lparr>img_src = src, img_width = width, img_height = height,
                                       img_aspectRatio = aspectRatio,
                                       img_borderRadius = Some 0\<rparr>\<rparr>
        in Inr (s\<lparr>elements := elements s @ [newEl], selectedId := Some (el_id newEl)\<rparr>))"

text \<open>The placeholder text of the source is Vietnamese; its diacritics are left out
  here, and no handler reads it.\<close>

definition addText :: "nat \<Rightarrow> EditorState \<Rightarrow> EditorState" where
  "addText now s =
     (let newText = \<lparr>el_id = toString now,
                      el_x = fst (canvasDimensions s) / 2,
                      el_y = snd (canvasDimensions s) / 2,
                      rotation = 0,
                      zIndex = length (elements s),
                      crop = None,
                      border = None,
                      shadow = Some \<lparr>sh_color = ''#000000'', sh_opacity = 0.8, sh_x = 2,
                                      sh_y = 2, sh_blur = 4\<rparr>,
                      el_opacity = None,
                      variant = TextV \<lparr>content = ''Nhap van ban...'', fontSize = 24,
                                       fontFamily = ''font-roboto'', txt_color = ''#ffffff'',
                                       align = AlignCenter, shadowEnabled = True\<rparr>\<rparr>
      in s\<lparr>elements := elements s @ [newText], selectedId := Some (el_id newText)\<rparr>)"

definition addShape :: "nat \<Rightarrow> shape_type \<Rightarrow> EditorState \<Rightarrow> EditorState" where
  "addShape now shapeTy s =
     (let newShape = \<lparr>el_id = toString now,
                       el_x = fst (canvasDimensions s) / 2,
                       el_y = snd (canvasDimensions s) / 2,
                       rotation = 0,
                       zIndex = length (elements s),
                       crop = Some zeroCrop,
                       border = None,
                       shadow = Some \<lparr>sh_color = ''#000000'', sh_opacity = 0.5, sh_x = 5,
                                       sh_y = 5, sh_blur = 10\<rparr>,
                       el_opacity = None,
                       variant = ShapeV \<lparr>shapeType = shapeTy, shp_width = 150, shp_height = 150,
                                         shp_color = ''#3b82f6'', shp_borderRadius = Some 0\<rparr>\<rparr>
      in s\<lparr>elements := elements s @ [newShape], selectedId := Some (el_id newShape)\<rparr>)"

section \<open>Layer management\<close>

datatype direction = Up | Down | Top | Bottom

text \<open>\<open>Array.prototype.findIndex\<close>; \<open>None\<close> stands for the result \<open>-1\<close>.\<close>

fun findIndex :: "('a \<Rightarrow> bool) \<Rightarrow> 'a list \<Rightarrow> nat option" where
  "findIndex P [] = None"
| "findIndex P (x # xs) = (if P x then Some 0 else map_option Suc (findIndex P xs))"

text \<open>\<open>!selectedId\<close>: \<open>null\<close> and the empty string are falsy.\<close>

definition falsy :: "string option \<Rightarrow> bool" where
  "falsy sel = (sel = None \<or> sel = Some [])"

text \<open>The first three lines of \<open>moveLayer\<close>: the index it works on, if it does not
  return early.\<close>

definition layerIndex :: "EditorState \<Rightarrow> nat option" where
  "layerIndex s =
     (if falsy (selectedId s) \<or> selectedId s = Some ''bg'' then None
      else findIndex (\<lambda>e. Some (el_id e) = selectedId s) (elements s))"

text \<open>\<open>newElements.splice(index, 1)\<close>.\<close>

definition splice1 :: "nat \<Rightarrow> 'a list \<Rightarrow> 'a list" where
  "splice1 index xs = take index xs @ drop (Suc index) xs"

text \<open>The body of \<open>moveLayer\<close> on the copy \<open>newElements\<close>, for a found \<open>index\<close>.\<close>

definition reorder :: "direction \<Rightarrow> nat \<Rightarrow> 'a list \<Rightarrow> 'a list" where
  "reorder dir index newElements =
     (let el = newElements ! index in
      if dir = Up \<and> int index < int (length newElements) - 1
        then (newElements[index := newElements ! (index + 1)])[index + 1 := el]
      else if dir = Down \<and> index > 0
        then (newElements[index := newElements ! (index - 1)])[index - 1 := el]
      else if dir = Top then splice1 index newElements @ [el]
      else if dir = Bottom then el # splice1 index newElements
      else newElements)"

definition moveLayer :: "direction \<Rightarrow> EditorState \<Rightarrow> EditorState" where
  "moveLayer dir s =
     (case layerIndex s of
        None \<Rightarrow> s
      | Some index \<Rightarrow> s\<lparr>elements := reorder dir index (elements s)\<rparr>)"

definition deleteSelected :: "EditorState \<Rightarrow> EditorState" where
  "deleteSelected s =
     (if selectedId s = Some ''bg''
      then s\<lparr>background := \<lparr>bg_type = BgSolid, bg_image = None, bg_color = Some ''#ffffff'',
                              bg_gradient = None\<rparr>,
             selectedId := None\<rparr>
      else s\<lparr>elements := filter (\<lambda>t. Some (el_id t) \<noteq> selectedId s) (elements s),
             selectedId := None,
             isCropping := False\<rparr>)"

text \<open>The z-order rank stored in every element equals its array index.\<close>

definition zIndexIsIndex :: "EditorElement list \<Rightarrow> bool" where
  "zIndexIsIndex els = (map zIndex els = [0 ..< length els])"

section \<open>White-background removal\<close>

type_synonym byte = "8 word"

text \<open>\<open>data[i]\<close> on a \<open>Uint8ClampedArray\<close>: \<open>undefined\<close> out of range.\<close>

definition rd :: "byte list \<Rightarrow> nat \<Rightarrow> byte option" where
  "rd data i = (if i < length data then Some (data ! i) else None)"

text \<open>\<open>v > 240\<close>; \<open>undefined > 240\<close> is false.\<close>

definition gt240 :: "byte option \<Rightarrow> bool" where
  "gt240 v = (case v of None \<Rightarrow> False | Some b \<Rightarrow> 240 < b)"

text \<open>\<open>data[i] = v\<close> on a typed array: ignored out of range.\<close>

definition wr :: "byte list \<Rightarrow> nat \<Rightarrow> byte \<Rightarrow> byte list" where
  "wr data i v = (if i < length data then data[i := v] else data)"

text \<open>The body of the \<open>for\<close> loop of \<open>removeWhiteBackground\<close>.\<close>

definition whiteStep :: "nat \<Rightarrow> byte list \<Rightarrow> byte list" where
  "whiteStep i data =
     (if gt240 (rd data i) \<and> gt240 (rd data (i + 1)) \<and> gt240 (rd data (i + 2))
      then wr data (i + 3) 0 else data)"

text \<open>\<open>for (let i = 0; i < data.length; i += 4)\<close>.\<close>

function whiteLoop :: "nat \<Rightarrow> byte list \<Rightarrow> byte list" where
  "whiteLoop i data =
     (if i < length data then whiteLoop (i + 4) (whiteStep i data) else data)"
  by pat_completeness auto
termination
  by (relation "measure (\<lambda>(i, data). length data - i)") (auto simp: whiteStep_def wr_def)

declare whiteLoop.simps [simp del]

text \<open>A decoded image: \<open>getImageData\<close> of the canvas the image was drawn into, four
  bytes (red, green, blue, alpha) per pixel.\<close>

record Raster =
  r_width :: nat
  r_height :: nat
  r_data :: "byte list"

text \<open>\<open>removeWhiteBackground\<close>; \<open>ctx\<close> is false when \<open>getContext('2d')\<close> returns
  \<open>null\<close>, and the image is then returned as it came.\<close>

definition removeWhiteBackground :: "bool \<Rightarrow> Raster \<Rightarrow> Raster" where
  "removeWhiteBackground ctx img =
     (if \<not> ctx then img else img\<lparr>r_data := whiteLoop 0 (r_data img)\<rparr>)"

definition isWhite :: "byte list \<Rightarrow> nat \<Rightarrow> bool" where
  "isWhite data p =
     (240 < data ! (4 * p) \<and> 240 < data ! (4 * p + 1) \<and> 240 < data ! (4 * p + 2))"

section \<open>Pointer interaction\<close>

definition bindE :: "error + 'a \<Rightarrow> ('a \<Rightarrow> error + 'b) \<Rightarrow> error + 'b" where
  "bindE m f = (case m of Inl e \<Rightarrow> Inl e | Inr v \<Rightarrow> f v)"

text \<open>\<open>xs.map(f)\<close> where \<open>f\<close> may throw: the first failure ends the map.\<close>

fun mapE :: "('a \<Rightarrow> error + 'b) \<Rightarrow> 'a list \<Rightarrow> error + 'b list" where
  "mapE f [] = Inr []"
| "mapE f (x # xs) = bindE (f x) (\<lambda>y. bindE (mapE f xs) (\<lambda>ys. Inr (y # ys)))"

text \<open>\<open>a / b\<close>: a zero divisor gives \<open>Infinity\<close> or \<open>NaN\<close>.\<close>

definition jsDiv :: "real \<Rightarrow> real \<Rightarrow> error + real" where
  "jsDiv a b = (if b = 0 then Inl NonFinite else Inr (a / b))"

text \<open>Numeric properties of an element object; \<open>None\<close> is \<open>undefined\<close>.\<close>

definition prop_fontSize :: "EditorElement \<Rightarrow> real option" where
  "prop_fontSize e = (case variant e of TextV t \<Rightarrow> Some (fontSize t) | _ \<Rightarrow> None)"

definition prop_width :: "EditorElement \<Rightarrow> real option" where
  "prop_width e =
     (case variant e of ImageV im \<Rightarrow> Some (img_width im) | ShapeV sh \<Rightarrow> Some (shp_width sh)
      | TextV t \<Rightarrow> None)"

definition prop_height :: "EditorElement \<Rightarrow> real option" where
  "prop_height e =
     (case variant e of ImageV im \<Rightarrow> Some (img_height im) | ShapeV sh \<Rightarrow> Some (shp_height sh)
      | TextV t \<Rightarrow> None)"

definition prop_aspectRatio :: "EditorElement \<Rightarrow> real option" where
  "prop_aspectRatio e = (case variant e of ImageV im \<Rightarrow> Some (img_aspectRatio im) | _ \<Rightarrow> None)"

text \<open>\<open>initialElementState.current.p\<close> used in arithmetic, for a numeric property
  \<open>p\<close>: reading a property of \<open>null\<close> throws, a missing property is \<open>undefined\<close>
  and the arithmetic gives \<open>NaN\<close>.\<close>

fun snapNum :: "(EditorElement \<Rightarrow> real option) \<Rightarrow> (BackgroundImage \<Rightarrow> real option) \<Rightarrow>
    snapshot \<Rightarrow> error + real" where
  "snapNum f g SnapNull = Inl TypeError"
| "snapNum f g SnapEmpty = Inl NonFinite"
| "snapNum f g (SnapBg b) = (case g b of None \<Rightarrow> Inl NonFinite | Some v \<Rightarrow> Inr v)"
| "snapNum f g (SnapEl e) = (case f e of None \<Rightarrow> Inl NonFinite | Some v \<Rightarrow> Inr v)"

definition snap_x :: "snapshot \<Rightarrow> error + real" where
  "snap_x = snapNum (\<lambda>e. Some (el_x e)) (\<lambda>b. Some (bgi_x b))"

definition snap_y :: "snapshot \<Rightarrow> error + real" where
  "snap_y = snapNum (\<lambda>e. Some (el_y e)) (\<lambda>b. Some (bgi_y b))"

definition snap_scale :: "snapshot \<Rightarrow> error + real" where
  "snap_scale = snapNum (\<lambda>e. None) (\<lambda>b. Some (bgi_scale b))"

definition snap_rotation :: "snapshot \<Rightarrow> error + real" where
  "snap_rotation = snapNum (\<lambda>e. Some (rotation e)) (\<lambda>b. None)"

definition snap_fontSize :: "snapshot \<Rightarrow> error + real" where
  "snap_fontSize = snapNum prop_fontSize (\<lambda>b. None)"

definition snap_width :: "snapshot \<Rightarrow> error + real" where
  "snap_width = snapNum prop_width (\<lambda>b. None)"

definition snap_height :: "snapshot \<Rightarrow> error + real" where
  "snap_height = snapNum prop_height (\<lambda>b. None)"

definition snap_aspectRatio :: "snapshot \<Rightarrow> error + real" where
  "snap_aspectRatio = snapNum prop_aspectRatio (\<lambda>b. None)"

text \<open>\<open>initialElementState.current.crop\<close>, of which a side is read next: that read
  throws unless the snapshot is an element with a crop record.\<close>

fun snap_crop :: "snapshot \<Rightarrow> error + CropData" where
  "snap_crop (SnapEl e) = (case crop e of None \<Rightarrow> Inl TypeError | Some c \<Rightarrow> Inr c)"
| "snap_crop _ = Inl TypeError"

datatype gesture_type = Move | Resize | Rotate | Crop

definition startCropping :: "EditorState \<Rightarrow> EditorState" where
  "startCropping s =
     (if \<not> falsy (selectedId s) \<and> selectedId s \<noteq> Some ''bg'' then s\<lparr>isCropping := True\<rparr> else s)"

text \<open>\<open>handleMouseDown(e, id, type, cropHandle)\<close>; \<open>xy\<close> is \<open>getClientCoords(e)\<close>.\<close>

definition handleMouseDown ::
    "real \<times> real \<Rightarrow> string \<Rightarrow> gesture_type \<Rightarrow> crop_handle option \<Rightarrow> EditorState \<Rightarrow> EditorState" where
  "handleMouseDown xy ident ty cropHandle s =
     (if isErasing s then s
      else if isCropping s \<and> Some ident \<noteq> selectedId s then s\<lparr>isCropping := False\<rparr>
      else
        let s1 = s\<lparr>selectedId := Some ident, dragStart := xy\<rparr>;
            s2 = (if ident = ''bg''
                  then (if bg_type (background s) = BgImage
                        then (case bg_image (background s) of
                                Some im \<Rightarrow> s1\<lparr>initialElementState := SnapBg im\<rparr>
                              | None \<Rightarrow> s1)
                        else s1)
                  else s1\<lparr>initialElementState :=
                           (case find (\<lambda>t. el_id t = ident) (elements s) of
                              None \<Rightarrow> SnapEmpty
                            | Some el \<Rightarrow> SnapEl el)\<rparr>)
        in if ty = Crop \<and> cropHandle \<noteq> None then s2\<lparr>isCroppingDrag := cropHandle\<rparr>
           else s2\<lparr>isDragging := (if ty = Move then True else isDragging s2),
                   isResizing := (if ty = Resize then True else isResizing s2),
                   isRotating := (if ty = Rotate then True else isRotating s2)\<rparr>)"

definition handleCanvasClick :: "EditorState \<Rightarrow> EditorState" where
  "handleCanvasClick s =
     (if \<not> isErasing s then s\<lparr>selectedId := None, isCropping := False\<rparr> else s)"

text \<open>The \<open>CROP\<close> branch of the map in \<open>handleMouseMove\<close>.  The four assignments
  are made in the order of the source, each reading the record as the previous one
  left it.\<close>

definition cropMove ::
    "crop_handle \<Rightarrow> snapshot \<Rightarrow> real \<Rightarrow> real \<Rightarrow> EditorElement \<Rightarrow> error + EditorElement" where
  "cropMove h snap dx dy el =
     (let currentCrop = (case crop el of None \<Rightarrow> zeroCrop | Some c \<Rightarrow> c);
          initialW = (case variant el of ShapeV sh \<Rightarrow> shp_width sh
                      | ImageV im \<Rightarrow> img_width im | TextV t \<Rightarrow> 100);
          initialH = (case variant el of ShapeV sh \<Rightarrow> shp_height sh
                      | ImageV im \<Rightarrow> img_height im | TextV t \<Rightarrow> 100)
      in bindE (jsDiv dx initialW) (\<lambda>qx. bindE (jsDiv dy initialH) (\<lambda>qy.
           let percentX = qx * 100; percentY = qy * 100
           in bindE (snap_crop snap) (\<lambda>c0.
                let newCrop =
                  (case h of
                     LT \<Rightarrow>
                       let n = currentCrop\<lparr>c_left :=
                                 min (max 0 (c_left c0 + percentX)) (100 - c_right currentCrop - 5)\<rparr>
                       in n\<lparr>c_top := min (max 0 (c_top c0 + percentY)) (100 - c_bottom n - 5)\<rparr>
                   | RT \<Rightarrow>
                       let n = currentCrop\<lparr>c_right :=
                                 min (max 0 (c_right c0 - percentX)) (100 - c_left currentCrop - 5)\<rparr>
                       in n\<lparr>c_top := min (max 0 (c_top c0 + percentY)) (100 - c_bottom n - 5)\<rparr>
                   | LB \<Rightarrow>
                       let n = currentCrop\<lparr>c_left :=
                                 min (max 0 (c_left c0 + percentX)) (100 - c_right currentCrop - 5)\<rparr>
                       in n\<lparr>c_bottom := min (max 0 (c_bottom c0 - percentY)) (100 - c_top n - 5)\<rparr>
                   | RB \<Rightarrow>
                       let n = currentCrop\<lparr>c_right :=
                                 min (max 0 (c_right c0 - percentX)) (100 - c_left currentCrop - 5)\<rparr>
                       in n\<lparr>c_bottom := min (max 0 (c_bottom c0 - percentY)) (100 - c_top n - 5)\<rparr>)
                in Inr (el\<lparr>crop := Some newCrop\<rparr>)))))"

text \<open>The \<open>isResizing\<close> branch; \<open>delta\<close> is \<open>dx\<close>.\<close>

definition resizeElement :: "snapshot \<Rightarrow> real \<Rightarrow> EditorElement \<Rightarrow> error + EditorElement" where
  "resizeElement snap delta el =
     (case variant el of
        TextV t \<Rightarrow>
          bindE (snap_fontSize snap) (\<lambda>f0.
            Inr (el\<lparr>variant := TextV (t\<lparr>fontSize := max 10 (f0 + delta * 0.5)\<rparr>)\<rparr>))
      | ImageV im \<Rightarrow>
          bindE (snap_width snap) (\<lambda>w0.
            let newWidth = max 20 (w0 + delta)
            in bindE (snap_aspectRatio snap) (\<lambda>ar.
                 bindE (jsDiv newWidth ar) (\<lambda>newHeight.
                   Inr (el\<lparr>variant := ImageV (im\<lparr>img_width := newWidth,
                                                   img_height := newHeight\<rparr>)\<rparr>))))
      | ShapeV sh \<Rightarrow>
          bindE (snap_width snap) (\<lambda>w0.
            bindE (snap_height snap) (\<lambda>h0.
              Inr (el\<lparr>variant := ShapeV (sh\<lparr>shp_width := max 20 (w0 + delta),
                                              shp_height := max 20 (h0 + delta * 1)\<rparr>)\<rparr>))))"

text \<open>The function mapped over \<open>prevElements\<close> in \<open>handleMouseMove\<close>.\<close>

definition moveElement :: "EditorState \<Rightarrow> real \<Rightarrow> real \<Rightarrow> EditorElement \<Rightarrow> error + EditorElement" where
  "moveElement s dx dy el =
     (if Some (el_id el) \<noteq> selectedId s then Inr el
      else case isCroppingDrag s of
        Some h \<Rightarrow> cropMove h (initialElementState s) dx dy el
      | None \<Rightarrow>
          if isDragging s then
            bindE (snap_x (initialElementState s)) (\<lambda>x0.
              bindE (snap_y (initialElementState s)) (\<lambda>y0.
                Inr (el\<lparr>el_x := x0 + dx, el_y := y0 + dy\<rparr>)))
          else if isResizing s then resizeElement (initialElementState s) dx el
          else if isRotating s then
            bindE (snap_rotation (initialElementState s)) (\<lambda>r0.
              Inr (el\<lparr>rotation := r0 + dx * 0.5\<rparr>))
          else Inr el)"

text \<open>\<open>handleMouseMove(e)\<close>; \<open>xy\<close> is \<open>getClientCoords(e)\<close>.\<close>

definition handleMouseMove :: "real \<times> real \<Rightarrow> EditorState \<Rightarrow> error + EditorState" where
  "handleMouseMove xy s =
     (if \<not> isDragging s \<and> \<not> isResizing s \<and> \<not> isRotating s \<and> isCroppingDrag s = None
        then Inr s
      else if falsy (selectedId s) then Inr s
      else
        let dx = fst xy - fst (dragStart s);
            dy = snd xy - snd (dragStart s)
        in case (if selectedId s = Some ''bg'' \<and> bg_type (background s) = BgImage
                 then bg_image (background s) else None) of
             Some im \<Rightarrow>
               if isDragging s then
                 bindE (snap_x (initialElementState s)) (\<lambda>x0.
                   bindE (snap_y (initialElementState s)) (\<lambda>y0.
                     Inr (s\<lparr>background := (background s)
                              \<lparr>bg_image := Some (im\<lparr>bgi_x := x0 + dx, bgi_y := y0 + dy\<rparr>)\<rparr>\<rparr>)))
               else if isResizing s then
                 let scaleDelta = dx * 0.005
                 in bindE (snap_scale (initialElementState s)) (\<lambda>sc0.
                      Inr (s\<lparr>background := (background s)
                               \<lparr>bg_image := Some (im\<lparr>bgi_scale := max 0.1 (sc0 + scaleDelta)\<rparr>)\<rparr>\<rparr>))
               else Inr s
           | None \<Rightarrow>
               bindE (mapE (moveElement s dx dy) (elements s)) (\<lambda>els. Inr (s\<lparr>elements := els\<rparr>)))"

definition handleMouseUp :: "EditorState \<Rightarrow> EditorState" where
  "handleMouseUp s =
     s\<lparr>isDragging := False, isResizing := False, isRotating := False,
       isCroppingDrag := None, initialElementState := SnapNull, eraserLastPos := None\<rparr>"

text \<open>A run of pointer-moves; an exception ends it.\<close>

fun runMoves :: "(real \<times> real) list \<Rightarrow> EditorState \<Rightarrow> error + EditorState" where
  "runMoves [] s = Inr s"
| "runMoves (xy # ms) s = bindE (handleMouseMove xy s) (runMoves ms)"

section \<open>Property edits, background and eraser\<close>





definition selectGradient :: "EditorState \<Rightarrow> EditorState" where
  "selectGradient s =
     s\<lparr>background := (background s)
         \<lparr>bg_type := BgGradient,
          bg_gradient := Some \<lparr>g_type = Linear, g_direction = ''to right'',
                                g_colors = [''#ff9a9e'', ''#fad0c4'']\<rparr>\<rparr>\<rparr>"

definition setSolidColor :: "string \<Rightarrow> EditorState \<Rightarrow> EditorState" where
  "setSolidColor c s =
     s\<lparr>background := \<lparr>bg_type = BgSolid, bg_image = None, bg_color = Some c,
                        bg_gradient = None\<rparr>\<rparr>"









section \<open>Export\<close>

text \<open>The export is modelled by the calls it makes on the 2D context, in order.
  \<open>hexToRgba\<close> builds a colour string from a hex colour and an alpha; the string is
  kept as the pair it is built from.\<close>

datatype css_color = Hex string | Rgba string real | Transparent























section \<open>Sessions\<close>

text \<open>One gesture: pointer-down on a hit target, pointer-moves, pointer-up.\<close>

definition gesture ::
    "string \<Rightarrow> gesture_type \<Rightarrow> crop_handle option \<Rightarrow> real \<times> real \<Rightarrow> (real \<times> real) list \<Rightarrow>
     EditorState \<Rightarrow> error + EditorState" where
  "gesture ident ty h start ms s =
     bindE (runMoves ms (handleMouseDown start ident ty h s)) (\<lambda>s'. Inr (handleMouseUp s'))"

datatype action =
    AddImage nat string nat nat
  | AddText nat
  | AddShape nat shape_type
  | ResizeGesture string "real \<times> real" "(real \<times> real) list"

fun perform :: "action \<Rightarrow> EditorState \<Rightarrow> error + EditorState" where
  "perform (AddImage now src iw ih) s = addImageElement now src iw ih s"
| "perform (AddText now) s = Inr (addText now s)"
| "perform (AddShape now st) s = Inr (addShape now st s)"
| "perform (ResizeGesture ident start ms) s = gesture ident Resize None start ms s"

fun run :: "action list \<Rightarrow> EditorState \<Rightarrow> error + EditorState" where
  "run [] s = Inr s"
| "run (a # acts) s = bindE (perform a s) (run acts)"




text \<open>The crop invariant of an element.\<close>

definition cropOK :: "EditorElement \<Rightarrow> bool" where
  "cropOK el =
     (case crop el of
        None \<Rightarrow> True
      | Some c \<Rightarrow> c_top c + c_bottom c < 100 \<and> c_left c + c_right c < 100)"

text \<open>The resize rule in the words of the specification: the new attributes from the
  attributes at gesture start and the horizontal delta \<open>d\<close>.\<close>

fun specResize :: "real \<Rightarrow> element_variant \<Rightarrow> element_variant" where
  "specResize d (TextV t) = TextV (t\<lparr>fontSize := max 10 (fontSize t + d * 0.5)\<rparr>)"
| "specResize d (ImageV im) =
     ImageV (im\<lparr>img_width := max 20 (img_width im + d),
                img_height := max 20 (img_width im + d) / img_aspectRatio im\<rparr>)"
| "specResize d (ShapeV sh) =
     ShapeV (sh\<lparr>shp_width := max 20 (shp_width sh + d),
                shp_height := max 20 (shp_height sh + d)\<rparr>)"

section \<open>Example scenes\<close>

text \<open>Two shapes added one after the other; the second, on top, is selected.\<close>

definition twoShapes :: EditorState where
  "twoShapes = addShape 1002 Circle (addShape 1001 Rectangle initialState)"


text \<open>The first shape of \<open>twoShapes\<close> selected by a click.\<close>

definition firstSelected :: EditorState where
  "firstSelected = handleMouseUp (handleMouseDown (0, 0) ''1001'' Move None twoShapes)"

text \<open>One decoded image of 4 by 2 pixels added to the empty scene.\<close>

definition oneImage :: EditorState where
  "oneImage = projr (addImageElement 1003 ''data:image/png;base64,AAAA'' 4 2 initialState)"

text \<open>A crop gesture on the image of \<open>oneImage\<close>: crop mode, pointer-down on the
  top-left handle, two pointer-moves.\<close>

definition cropDrag :: "error + EditorState" where
  "cropDrag = runMoves [(30, 15), (300, 300)]
      (handleMouseDown (0, 0) ''1003'' Crop (Some LT) (startCropping oneImage))"

text \<open>An image added on top of a shape; the image is selected.\<close>

definition imageOverShape :: EditorState where
  "imageOverShape =
     projr (addImageElement 1003 ''data:image/png;base64,AAAA'' 4 2
              (addShape 1001 Rectangle initialState))"




section \<open>Auxiliary notions of the proofs\<close>

text \<open>The list \<open>zs\<close> with \<open>e\<close> put at position \<open>j\<close>.\<close>

definition ins :: "nat \<Rightarrow> 'a \<Rightarrow> 'a list \<Rightarrow> 'a list" where
  "ins j e zs = take j zs @ e # drop j zs"

text \<open>Two variants that differ at most in the attributes a resize writes.\<close>

fun sameButSize :: "element_variant \<Rightarrow> element_variant \<Rightarrow> bool" where
  "sameButSize (TextV a) (TextV b) = (b = a\<lparr>fontSize := fontSize b\<rparr>)"
| "sameButSize (ImageV a) (ImageV b) =
     (b = a\<lparr>img_width := img_width b, img_height := img_height b\<rparr>)"
| "sameButSize (ShapeV a) (ShapeV b) =
     (b = a\<lparr>shp_width := shp_width b, shp_height := shp_height b\<rparr>)"
| "sameButSize _ _ = False"

text \<open>The state during a resize gesture on \<open>ident\<close>, with variant \<open>v\<close> in the resized
  element.\<close>

definition resizing :: "EditorState \<Rightarrow> string \<Rightarrow> real \<times> real \<Rightarrow> EditorElement \<Rightarrow> element_variant \<Rightarrow> EditorState" where
  "resizing s ident start el0 v =
     s\<lparr>elements := map (\<lambda>el. if el_id el = ident then el0\<lparr>variant := v\<rparr> else el) (elements s),
       selectedId := Some ident, dragStart := start,
       initialElementState := SnapEl el0, isResizing := True\<rparr>"


text \<open>An image element with the given aspect ratio, and the relation between an
  element before and after a step that keeps its id and its aspect ratio.\<close>

definition hasRatio :: "EditorElement \<Rightarrow> real \<Rightarrow> bool" where
  "hasRatio el r = (case variant el of ImageV im \<Rightarrow> img_aspectRatio im = r | _ \<Rightarrow> False)"








definition ratiosKept :: "(string \<times> real) list \<Rightarrow> EditorElement list \<Rightarrow> bool" where
  "ratiosKept rs els \<longleftrightarrow> (\<forall>(i, r)\<in>set rs. \<exists>el\<in>set els. el_id el = i \<and> hasRatio el r)"


section \<open>Properties of layer management\<close>

lemma toString_1001: "toString 1001 = ''1001''"
  by code_simp

lemma toString_1002: "toString 1002 = ''1002''"
  by code_simp

lemma toString_1003: "toString 1003 = ''1003''"
  by code_simp

lemma findIndex_Some_iff:
  "findIndex P xs = Some i \<longleftrightarrow> i < length xs \<and> P (xs ! i) \<and> (\<forall>j<i. \<not> P (xs ! j))"
proof (induction xs arbitrary: i)
  case Nil
  then show ?case by simp
next
  case (Cons x xs)
  show ?case
  proof (cases "P x")
    case True
    then show ?thesis by (cases i) auto
  next
    case False
    show ?thesis
    proof (cases i)
      case 0
      then show ?thesis using False by auto
    next
      case (Suc k)
      have "(\<forall>j<Suc k. \<not> P ((x # xs) ! j)) \<longleftrightarrow> (\<forall>j<k. \<not> P (xs ! j))"
        using False by (auto simp: less_Suc_eq_0_disj)
      then show ?thesis using False Suc Cons.IH[of k] by auto
    qed
  qed
qed

lemma ins_splice1: "i < length xs \<Longrightarrow> ins i (xs ! i) (splice1 i xs) = xs"
  by (simp add: ins_def splice1_def id_take_nth_drop[symmetric] min_def)

lemma reorder_Top_ins:
  "i < length xs \<Longrightarrow> reorder Top i xs = ins (length xs - 1) (xs ! i) (splice1 i xs)"
  by (simp add: reorder_def ins_def splice1_def)

lemma reorder_Down_ins:
  assumes "0 < j" "j \<le> length zs"
  shows "reorder Down j (ins j e zs) = ins (j - 1) e zs"
proof -
  obtain k where j: "j = Suc k" using assms(1) by (cases j) auto
  have k: "k < length zs" using assms(2) j by simp
  have zs: "zs = take k zs @ zs ! k # drop (Suc k) zs"
    using k by (rule id_take_nth_drop)
  have t: "take (Suc k) zs = take k zs @ [zs ! k]"
    using k by (simp add: take_Suc_conv_app_nth)
  have d: "drop k zs = zs ! k # drop (Suc k) zs"
    using k by (simp add: Cons_nth_drop_Suc)
  have lt: "length (take k zs) = k" using k by simp
  have "ins (Suc k) e zs = take k zs @ zs ! k # e # drop (Suc k) zs"
    by (simp add: ins_def t)
  moreover have "ins k e zs = take k zs @ e # zs ! k # drop (Suc k) zs"
    by (simp add: ins_def d)
  moreover have "reorder Down (Suc k) (take k zs @ zs ! k # e # drop (Suc k) zs)
      = take k zs @ e # zs ! k # drop (Suc k) zs"
    using lt by (simp add: reorder_def Let_def nth_append list_update_append)
  ultimately show ?thesis using j by simp
qed

lemma findIndex_ins:
  assumes "\<forall>z\<in>set zs. \<not> P z" "P e" "j \<le> length zs"
  shows "findIndex P (ins j e zs) = Some j"
proof -
  have "\<forall>i<j. \<not> P (ins j e zs ! i)"
    using assms by (auto simp: ins_def nth_append)
  moreover have "ins j e zs ! j = e" using assms(3) by (simp add: ins_def nth_append)
  moreover have "j < length (ins j e zs)" using assms(3) by (simp add: ins_def)
  ultimately show ?thesis using assms(2) by (simp add: findIndex_Some_iff)
qed

lemma reorder_Up_Down:
  assumes "i + 1 < length xs"
  shows "reorder Down (i + 1) (reorder Up i xs) = xs"
  using assms by (auto simp: reorder_def Let_def list_eq_iff_nth_eq nth_list_update)

lemma findIndex_reorder_Up:
  assumes "i + 1 < length xs" "distinct (map f xs)"
  shows "findIndex (\<lambda>e. f e = f (xs ! i)) (reorder Up i xs) = Some (i + 1)"
proof -
  have ne: "\<forall>j<length xs. j \<noteq> i \<longrightarrow> f (xs ! j) \<noteq> f (xs ! i)"
    using assms by (auto simp: distinct_conv_nth)
  have r: "reorder Up i xs = (xs[i := xs ! (i + 1)])[i + 1 := xs ! i]"
    using assms(1) by (simp add: reorder_def Let_def)
  have "\<forall>j<i + 1. f (reorder Up i xs ! j) \<noteq> f (xs ! i)"
    using assms(1) ne by (auto simp: r nth_list_update)
  then show ?thesis using assms(1) by (simp add: findIndex_Some_iff) (simp add: r)
qed

lemma layerIndex_SomeD:
  assumes "layerIndex s = Some i"
  shows "i < length (elements s)" "selectedId s = Some (el_id (elements s ! i))"
    "el_id (elements s ! i) \<noteq> []" "el_id (elements s ! i) \<noteq> ''bg''"
  using assms by (auto simp: layerIndex_def falsy_def findIndex_Some_iff split: if_splits)

lemma layerIndex_elements_update:
  assumes "selectedId s = Some sid" "sid \<noteq> []" "sid \<noteq> ''bg''"
  shows "layerIndex (s\<lparr>elements := ys\<rparr>) = findIndex (\<lambda>e. el_id e = sid) ys"
  using assms by (simp add: layerIndex_def falsy_def)

lemma moveLayer_Down_ins:
  assumes "selectedId s = Some (el_id e)" "el_id e \<noteq> []" "el_id e \<noteq> ''bg''"
    and "\<forall>z\<in>set zs. el_id z \<noteq> el_id e" "m \<le> j" "j \<le> length zs"
  shows "(moveLayer Down ^^ m) (s\<lparr>elements := ins j e zs\<rparr>) = s\<lparr>elements := ins (j - m) e zs\<rparr>"
  using assms(5)
proof (induction m)
  case 0
  then show ?case by simp
next
  case (Suc m)
  then have IH: "(moveLayer Down ^^ m) (s\<lparr>elements := ins j e zs\<rparr>) = s\<lparr>elements := ins (j - m) e zs\<rparr>"
    by simp
  have pos: "0 < j - m" "j - m \<le> length zs" using Suc.prems assms(6) by simp_all
  have li: "layerIndex (s\<lparr>elements := ins (j - m) e zs\<rparr>) = Some (j - m)"
    using layerIndex_elements_update[OF assms(1-3)] findIndex_ins[of zs "\<lambda>x. el_id x = el_id e" e "j - m"]
      assms(4) pos by simp
  have "moveLayer Down (s\<lparr>elements := ins (j - m) e zs\<rparr>) = s\<lparr>elements := ins (j - m - 1) e zs\<rparr>"
    using li reorder_Down_ins[OF pos, of e] by (simp add: moveLayer_def)
  then show ?case using IH by simp
qed

text \<open>
  Claim C1, as the code has it.  With unique element ids and a selected element that
  \<open>moveLayer\<close> finds at index \<open>i\<close>: if the element is not already the topmost
  (\<open>i + 1 < length\<close>), \<open>up\<close> followed by \<open>down\<close> gives back the editor state, array
  order included; and \<open>top\<close> followed by \<open>length - 1 - i\<close> times \<open>down\<close> (the way
  back to the prior position) gives back the editor state for every position \<open>i\<close>.
\<close>

theorem moveLayer_roundtrip:
  assumes "distinct (map el_id (elements s))" and "layerIndex s = Some i"
  shows "(i + 1 < length (elements s) \<longrightarrow> moveLayer Down (moveLayer Up s) = s)
       \<and> (moveLayer Down ^^ (length (elements s) - 1 - i)) (moveLayer Top s) = s"
proof
  note li = layerIndex_SomeD[OF assms(2)]
  show "i + 1 < length (elements s) \<longrightarrow> moveLayer Down (moveLayer Up s) = s"
  proof
    assume lt: "i + 1 < length (elements s)"
    have up: "moveLayer Up s = s\<lparr>elements := reorder Up i (elements s)\<rparr>"
      using assms(2) by (simp add: moveLayer_def)
    have "layerIndex (s\<lparr>elements := reorder Up i (elements s)\<rparr>) = Some (i + 1)"
      using layerIndex_elements_update[OF li(2-4)]
        findIndex_reorder_Up[OF lt assms(1)] by simp
    then have "moveLayer Down (s\<lparr>elements := reorder Up i (elements s)\<rparr>) = s"
      using reorder_Up_Down[OF lt] by (simp add: moveLayer_def)
    then show "moveLayer Down (moveLayer Up s) = s"
      by (simp only: up)
  qed
next
  note li = layerIndex_SomeD[OF assms(2)]
  let ?xs = "elements s" and ?e = "elements s ! i"
  let ?zs = "splice1 i (elements s)"
  have len: "length ?zs = length ?xs - 1" using li(1) by (simp add: splice1_def)
  have top: "moveLayer Top s = s\<lparr>elements := ins (length ?zs) ?e ?zs\<rparr>"
    using assms(2) reorder_Top_ins[OF li(1)] len by (simp add: moveLayer_def)
  have xs: "?xs = take i ?xs @ ?e # drop (Suc i) ?xs"
    using li(1) by (rule id_take_nth_drop)
  have "distinct (map el_id (take i ?xs @ ?e # drop (Suc i) ?xs))"
    using assms(1) xs by simp
  then have notin: "\<forall>z\<in>set ?zs. el_id z \<noteq> el_id ?e"
    by (force simp: splice1_def image_iff)
  have "(moveLayer Down ^^ (length ?xs - 1 - i)) (s\<lparr>elements := ins (length ?zs) ?e ?zs\<rparr>)
      = s\<lparr>elements := ins (length ?zs - (length ?xs - 1 - i)) ?e ?zs\<rparr>"
    using moveLayer_Down_ins[OF li(2-4) notin, of "length ?xs - 1 - i" "length ?zs"] len
    by simp
  moreover have "length ?zs - (length ?xs - 1 - i) = i" using li(1) len by simp
  ultimately show "(moveLayer Down ^^ (length ?xs - 1 - i)) (moveLayer Top s) = s"
    using top ins_splice1[OF li(1)] by simp
qed

theorem moveLayer_roundtrip_witness:
  "moveLayer Down (moveLayer Up firstSelected) = firstSelected
   \<and> (moveLayer Down ^^ 1) (moveLayer Top firstSelected) = firstSelected"
proof -
  have els: "map el_id (elements firstSelected) = [''1001'', ''1002'']"
    by (simp add: firstSelected_def twoShapes_def addShape_def initialState_def
        handleMouseDown_def handleMouseUp_def Let_def toString_1001 toString_1002)
  have sel: "selectedId firstSelected = Some ''1001''"
    by (simp add: firstSelected_def twoShapes_def addShape_def initialState_def
        handleMouseDown_def handleMouseUp_def Let_def)
  have d: "distinct (map el_id (elements firstSelected))"
    by (simp add: els)
  have len: "length (elements firstSelected) = 2"
    using arg_cong[OF els, of length] by simp
  have "findIndex (\<lambda>e. el_id e = ''1001'') (elements firstSelected) = Some 0"
    using els len by (simp add: findIndex_Some_iff nth_map[symmetric] del: nth_map)
  then have l: "layerIndex firstSelected = Some 0"
    by (simp add: layerIndex_def falsy_def sel)
  show ?thesis using moveLayer_roundtrip [OF d l] len by simp
qed

text \<open>
  Claim C1 as stated fails for the topmost element: \<open>up\<close> does nothing there (the
  guard \<open>index < elements.length - 1\<close>), and the following \<open>down\<close> moves the
  element one layer down.
\<close>

theorem moveLayer_up_down_counterexample:
  "elements (moveLayer Down (moveLayer Up twoShapes)) \<noteq> elements twoShapes"
  by (simp add: twoShapes_def addShape_def initialState_def toString_1001 toString_1002
      moveLayer_def layerIndex_def falsy_def reorder_def Let_def)

lemma mset_reorder:
  assumes "i < length xs"
  shows "mset (reorder dir i xs) = mset xs"
proof -
  have tk: "mset (take i xs) + mset (drop (Suc i) xs) + {#xs ! i#} = mset xs"
    using id_take_nth_drop[OF assms] by (metis add.commute add_mset_add_single mset.simps(2) mset_append union_mset_add_mset_right)
  show ?thesis
  proof (cases dir)
    case Up
    then show ?thesis using assms mset_swap[of "i + 1" xs i]
      by (auto simp: reorder_def Let_def)
  next
    case Down
    then show ?thesis using assms mset_swap[of "i - 1" xs i]
      by (auto simp: reorder_def Let_def)
  next
    case Top
    then show ?thesis using tk by (simp add: reorder_def splice1_def)
  next
    case Bottom
    then show ?thesis using tk by (simp add: reorder_def splice1_def)
  qed
qed

lemma mset_moveLayer: "mset (elements (moveLayer dir s)) = mset (elements s)"
proof (cases "layerIndex s")
  case None
  then show ?thesis by (simp add: moveLayer_def)
next
  case (Some i)
  then have "i < length (elements s)"
    by (auto simp: layerIndex_def findIndex_Some_iff split: if_splits)
  then show ?thesis using Some by (simp add: moveLayer_def mset_reorder)
qed

lemma zIndexIsIndex_snoc:
  "zIndexIsIndex els \<Longrightarrow> zIndex e = length els \<Longrightarrow> zIndexIsIndex (els @ [e])"
  by (simp add: zIndexIsIndex_def)

text \<open>
  Claim C2, as the code has it.  Each of the three add operations gives the new
  element the array length as \<open>zIndex\<close>, so the stored rank equals the array index as
  long as elements are only added.  \<open>moveLayer\<close> permutes the array and
  \<open>deleteSelected\<close> removes entries from it; neither rewrites an element, so the
  stored \<open>zIndex\<close> fields stay what they were at creation, and the array position
  alone is the z-order.
\<close>

theorem zIndex_set_at_creation_only:
  "(zIndexIsIndex (elements s) \<longrightarrow>
      zIndexIsIndex (elements (addText now s))
    \<and> zIndexIsIndex (elements (addShape now st s))
    \<and> (\<forall>s'. addImageElement now src iw ih s = Inr s' \<longrightarrow> zIndexIsIndex (elements s')))
   \<and> mset (elements (moveLayer dir s)) = mset (elements s)
   \<and> subseq (elements (deleteSelected s)) (elements s)"
proof -
  have "subseq (elements (deleteSelected s)) (elements s)"
    by (simp add: deleteSelected_def)
  moreover have "zIndexIsIndex (elements s) \<longrightarrow>
      zIndexIsIndex (elements (addText now s))
    \<and> zIndexIsIndex (elements (addShape now st s))
    \<and> (\<forall>s'. addImageElement now src iw ih s = Inr s' \<longrightarrow> zIndexIsIndex (elements s'))"
    by (auto simp: addText_def addShape_def addImageElement_def Let_def zIndexIsIndex_snoc
        split: if_splits)
  ultimately show ?thesis using mset_moveLayer by blast
qed

theorem zIndex_set_at_creation_only_witness:
  "zIndexIsIndex (elements initialState)
   \<and> zIndexIsIndex (elements (addText 1001 initialState))
   \<and> mset (elements (moveLayer Down twoShapes)) = mset (elements twoShapes)"
  using zIndex_set_at_creation_only [of initialState 1001 Circle "''x''" 1 1 Down]
    zIndex_set_at_creation_only [of twoShapes 1001 Circle "''x''" 1 1 Down]
  by (simp add: initialState_def zIndexIsIndex_def)

text \<open>
  Claim C2 as stated fails after a reorder: the second of two shapes, moved down, sits
  at index 0 with \<open>zIndex\<close> 1.
\<close>

theorem zIndex_counterexample: "\<not> zIndexIsIndex (elements (moveLayer Down twoShapes))"
  by (simp add: twoShapes_def addShape_def initialState_def toString_1001 toString_1002 moveLayer_def
      layerIndex_def falsy_def reorder_def Let_def zIndexIsIndex_def)

section \<open>Properties of the background variants\<close>




section \<open>Properties of the eraser\<close>





section \<open>Properties of pointer-down\<close>

text \<open>
  Claim C4 as stated fails in its second half: while the image on top is being cropped,
  a pointer-down that asks for a drag of the shape below leaves the image selected and
  starts no drag.
\<close>

theorem pointer_down_elsewhere_counterexample:
  "isCropping (startCropping imageOverShape)
   \<and> selectedId (startCropping imageOverShape) = Some ''1003''
   \<and> selectedId (handleMouseDown (10, 10) ''1001'' Move None (startCropping imageOverShape))
       = Some ''1003''
   \<and> \<not> isDragging (handleMouseDown (10, 10) ''1001'' Move None (startCropping imageOverShape))"
  by (simp add: imageOverShape_def addImageElement_def addShape_def initialState_def
      toString_1001 toString_1003 startCropping_def falsy_def handleMouseDown_def Let_def)

text \<open>
  Claim C4, as the code has it.  While crop mode is on and the eraser is closed, a
  pointer-down for a drag, resize or rotate on an element other than the selected one
  only switches crop mode off: selection, snapshot and gesture flags stay as they were.
  A second pointer-down on that element then selects it and enters the requested
  gesture state.
\<close>

theorem pointer_down_elsewhere_cancels_crop:
  assumes "\<not> isErasing s" and "isCropping s" and "Some b \<noteq> selectedId s" and "ty \<noteq> Crop"
  shows "handleMouseDown xy b ty h s = s\<lparr>isCropping := False\<rparr>
    \<and> selectedId (handleMouseDown xy' b ty h (handleMouseDown xy b ty h s)) = Some b
    \<and> dragStart (handleMouseDown xy' b ty h (handleMouseDown xy b ty h s)) = xy'
    \<and> isDragging (handleMouseDown xy' b ty h (handleMouseDown xy b ty h s)) = (ty = Move \<or> isDragging s)
    \<and> isResizing (handleMouseDown xy' b ty h (handleMouseDown xy b ty h s)) = (ty = Resize \<or> isResizing s)
    \<and> isRotating (handleMouseDown xy' b ty h (handleMouseDown xy b ty h s)) = (ty = Rotate \<or> isRotating s)"
proof -
  have 1: "handleMouseDown xy b ty h s = s\<lparr>isCropping := False\<rparr>"
    using assms by (simp add: handleMouseDown_def)
  show ?thesis unfolding 1 using assms
    by (auto simp: handleMouseDown_def Let_def split: option.splits)
qed

theorem pointer_down_elsewhere_cancels_crop_witness:
  "handleMouseDown (10, 10) ''1001'' Resize None (startCropping imageOverShape)
     = (startCropping imageOverShape)\<lparr>isCropping := False\<rparr>
   \<and> isResizing (handleMouseDown (11, 10) ''1001'' Resize None
        (handleMouseDown (10, 10) ''1001'' Resize None (startCropping imageOverShape)))"
proof -
  have a: "\<not> isErasing (startCropping imageOverShape)"
    "isCropping (startCropping imageOverShape)"
    "Some ''1001'' \<noteq> selectedId (startCropping imageOverShape)"
    by (simp_all add: imageOverShape_def addImageElement_def addShape_def initialState_def
        toString_1001 toString_1003 startCropping_def falsy_def Let_def)
  have b: "Resize \<noteq> Crop" by simp
  show ?thesis
    using pointer_down_elsewhere_cancels_crop [OF a b, of "(10, 10)" None "(11, 10)"] by blast
qed

section \<open>Properties of the white-background removal\<close>

lemma length_wr: "length (wr data i v) = length data"
  by (simp add: wr_def)

lemma length_whiteStep: "length (whiteStep i data) = length data"
  by (simp add: whiteStep_def length_wr)

lemma length_whiteLoop: "length (whiteLoop i data) = length data"
proof (induction i data rule: whiteLoop.induct)
  case (1 i data)
  show ?case
  proof (cases "i < length data")
    case True
    then show ?thesis using "1" by (subst whiteLoop.simps) (simp add: length_whiteStep)
  next
    case False
    then show ?thesis by (subst whiteLoop.simps) simp
  qed
qed

lemma whiteStep_nth_other:
  assumes "j \<noteq> 4 * k + 3"
  shows "whiteStep (4 * k) data ! j = data ! j"
  using assms by (simp add: whiteStep_def wr_def)

lemma whiteStep_nth_alpha:
  assumes "4 * k + 3 < length data"
  shows "whiteStep (4 * k) data ! (4 * k + 3) =
           (if isWhite data k then 0 else data ! (4 * k + 3))"
  using assms by (simp add: whiteStep_def wr_def rd_def gt240_def isWhite_def)

lemma isWhite_whiteStep: "isWhite (whiteStep (4 * k) data) p = isWhite data p"
proof -
  have "4 * p \<noteq> 4 * k + 3" "4 * p + 1 \<noteq> 4 * k + 3" "4 * p + 2 \<noteq> 4 * k + 3"
    by presburger+
  then show ?thesis
    by (simp add: isWhite_def whiteStep_nth_other)
qed

lemma whiteLoop_nth:
  assumes "j < length data"
  shows "whiteLoop (4 * k) data ! j =
     (if j mod 4 = 3 \<and> k \<le> j div 4 \<and> isWhite data (j div 4) then 0 else data ! j)"
  using assms
proof (induction "4 * k" data arbitrary: k rule: whiteLoop.induct)
  case (1 data k)
  show ?case
  proof (cases "4 * k < length data")
    case False
    then have "\<not> (j mod 4 = 3 \<and> k \<le> j div 4)" using "1.prems" by presburger
    then show ?thesis using False by (subst whiteLoop.simps) auto
  next
    case True
    have IH: "whiteLoop (4 * Suc k) (whiteStep (4 * k) data) ! j =
       (if j mod 4 = 3 \<and> Suc k \<le> j div 4 \<and> isWhite data (j div 4)
        then 0 else whiteStep (4 * k) data ! j)"
      using "1.hyps"[of "Suc k"] True "1.prems"
      by (simp add: length_whiteStep isWhite_whiteStep)
    have unf: "whiteLoop (4 * k) data = whiteLoop (4 * Suc k) (whiteStep (4 * k) data)"
      using True by (subst whiteLoop.simps) (simp add: add.commute)
    show ?thesis
    proof (cases "j = 4 * k + 3")
      case here: True
      then have jm: "j mod 4 = 3" "j div 4 = k" by presburger+
      have "whiteStep (4 * k) data ! j = (if isWhite data k then 0 else data ! j)"
        using whiteStep_nth_alpha[of k data] "1.prems" here by simp
      then show ?thesis unfolding unf IH using jm by simp
    next
      case other: False
      then have "j mod 4 = 3 \<and> k \<le> j div 4 \<longleftrightarrow> j mod 4 = 3 \<and> Suc k \<le> j div 4"
        by presburger
      then show ?thesis unfolding unf IH using whiteStep_nth_other[OF other, of data] by auto
    qed
  qed
qed

text \<open>
  Claim C10.  When the 2D context is obtained, the white-background removal keeps the
  length of the pixel data, and for every complete pixel \<open>p\<close> (bytes \<open>4p .. 4p+3\<close>) it
  leaves red, green and blue as they were and sets alpha to 0 exactly when red, green
  and blue are each greater than 240; otherwise alpha is unchanged too.
\<close>

theorem removeWhiteBackground_pixels:
  assumes "4 * p + 3 < length (r_data img)"
  shows "length (r_data (removeWhiteBackground True img)) = length (r_data img)
     \<and> r_data (removeWhiteBackground True img) ! (4 * p) = r_data img ! (4 * p)
     \<and> r_data (removeWhiteBackground True img) ! (4 * p + 1) = r_data img ! (4 * p + 1)
     \<and> r_data (removeWhiteBackground True img) ! (4 * p + 2) = r_data img ! (4 * p + 2)
     \<and> r_data (removeWhiteBackground True img) ! (4 * p + 3) =
         (if 240 < r_data img ! (4 * p) \<and> 240 < r_data img ! (4 * p + 1)
              \<and> 240 < r_data img ! (4 * p + 2)
          then 0 else r_data img ! (4 * p + 3))"
proof -
  have m: "(4 * p) mod 4 \<noteq> 3" "(4 * p + 1) mod 4 \<noteq> 3" "(4 * p + 2) mod 4 \<noteq> 3"
     "(4 * p + 3) mod 4 = 3" "(4 * p + 3) div 4 = p"
    by presburger+
  have l: "4 * p < length (r_data img)" "4 * p + 1 < length (r_data img)"
    "4 * p + 2 < length (r_data img)" using assms by simp_all
  show ?thesis
    using whiteLoop_nth[of _ "r_data img" 0] assms l m
    by (simp add: removeWhiteBackground_def length_whiteLoop isWhite_def)
qed

theorem removeWhiteBackground_pixels_witness:
  "4 * 0 + 3 < length (r_data \<lparr>r_width = 2, r_height = 1,
        r_data = [255, 250, 241, 255, 255, 240, 255, 200]\<rparr>)
   \<and> r_data (removeWhiteBackground True \<lparr>r_width = 2, r_height = 1,
        r_data = [255, 250, 241, 255, 255, 240, 255, 200]\<rparr>) ! 3 = 0"
  using removeWhiteBackground_pixels [of 0 "\<lparr>r_width = 2, r_height = 1,
        r_data = [255, 250, 241, 255, 255, 240, 255, 200]\<rparr>"]
  by simp

section \<open>Shared lemmas: errors and element ids\<close>

lemma bindE_Inr_iff:
  "bindE m f = Inr y \<longleftrightarrow> (\<exists>v. m = Inr v \<and> f v = Inr y)"
  by (cases m) (auto simp: bindE_def)

lemma bindE_Inr [simp]: "bindE (Inr v) f = f v"
  by (simp add: bindE_def)

lemma mapE_map:
  assumes "\<And>x. x \<in> set xs \<Longrightarrow> f x = Inr (g x)"
  shows "mapE f xs = Inr (map g xs)"
  using assms by (induction xs) simp_all

lemma mapE_Inr_all2:
  assumes "mapE f xs = Inr ys"
  shows "list_all2 (\<lambda>x y. f x = Inr y) xs ys"
  using assms
proof (induction xs arbitrary: ys)
  case Nil
  then show ?case by simp
next
  case (Cons x xs)
  then show ?case by (auto simp: bindE_Inr_iff)
qed

lemma mapE_preserves:
  assumes "mapE f xs = Inr ys" and "\<forall>x\<in>set xs. P x"
    and "\<And>x y. P x \<Longrightarrow> f x = Inr y \<Longrightarrow> P y"
  shows "\<forall>y\<in>set ys. P y"
proof -
  have "list_all2 (\<lambda>x y. f x = Inr y) xs ys" using assms(1) by (rule mapE_Inr_all2)
  then show ?thesis using assms(2,3)
    by (induction rule: list_all2_induct) auto
qed








section \<open>Properties of crop gestures\<close>

lemma clamp_sum:
  fixes a b :: real
  shows "min a (100 - b - 5) + b < 100" and "b + min a (100 - b - 5) < 100"
  by linarith+

lemma cropMove_cropOK:
  assumes "cropMove h snap dx dy el = Inr el'"
  shows "cropOK el'"
  using assms clamp_sum
  by (cases h) (auto simp: cropMove_def Let_def bindE_Inr_iff cropOK_def simp del: diff_diff_eq)

lemma resizeElement_crop:
  assumes "resizeElement snap d el = Inr el'"
  shows "crop el' = crop el"
  using assms
  by (cases "variant el") (auto simp: resizeElement_def Let_def bindE_Inr_iff)

lemma moveElement_cropOK:
  assumes "cropOK el" and "moveElement s dx dy el = Inr el'"
  shows "cropOK el'"
proof (cases "Some (el_id el) \<noteq> selectedId s")
  case True
  then show ?thesis using assms by (simp add: moveElement_def)
next
  case sel: False
  show ?thesis
  proof (cases "isCroppingDrag s")
    case (Some h)
    then show ?thesis using assms(2) sel cropMove_cropOK by (simp add: moveElement_def)
  next
    case None
    then have "crop el' = crop el"
      using assms(2) sel resizeElement_crop
      by (auto simp: moveElement_def bindE_Inr_iff split: if_splits)
    then show ?thesis using assms(1) by (simp add: cropOK_def)
  qed
qed

lemma handleMouseMove_cropOK:
  assumes "\<forall>el\<in>set (elements s). cropOK el" and "handleMouseMove xy s = Inr s'"
  shows "\<forall>el\<in>set (elements s'). cropOK el"
proof -
  consider (same) "elements s' = elements s"
    | (mapped) "mapE (moveElement s (fst xy - fst (dragStart s)) (snd xy - snd (dragStart s)))
                  (elements s) = Inr (elements s')"
    using assms(2)
    by (auto simp: handleMouseMove_def Let_def bindE_Inr_iff split: if_splits option.splits)
  then show ?thesis
  proof cases
    case same
    then show ?thesis using assms(1) by simp
  next
    case mapped
    show ?thesis
      by (rule mapE_preserves[OF mapped assms(1)]) (rule moveElement_cropOK)
  qed
qed

lemma runMoves_cropOK:
  assumes "\<forall>el\<in>set (elements s). cropOK el" and "runMoves ms s = Inr s'"
  shows "\<forall>el\<in>set (elements s'). cropOK el"
  using assms
proof (induction ms arbitrary: s)
  case Nil
  then show ?case by simp
next
  case (Cons xy ms)
  from Cons.prems(2) obtain s1 where 1: "handleMouseMove xy s = Inr s1"
    and 2: "runMoves ms s1 = Inr s'"
    by (auto simp: bindE_Inr_iff)
  show ?case
    by (rule Cons.IH[OF handleMouseMove_cropOK[OF Cons.prems(1) 1] 2])
qed

lemma elements_handleMouseDown: "elements (handleMouseDown xy ident ty h s) = elements s"
  by (simp add: handleMouseDown_def Let_def split: option.splits)

text \<open>
  Claim C3.  If every element of the scene satisfies the crop invariant
  (\<open>top + bottom < 100\<close> and \<open>left + right < 100\<close>) when a crop gesture starts on any
  handle, then after every run of pointer-moves of that gesture, whatever the pointer
  positions, every element still satisfies it.  The pointer-move clamps each
  percentage it writes to at most \<open>100 - opposite - 5\<close>.
\<close>

theorem crop_gesture_keeps_invariant:
  assumes "\<forall>el\<in>set (elements s). cropOK el"
    and "runMoves ms (handleMouseDown start ident Crop (Some h) s) = Inr s'"
  shows "\<forall>el\<in>set (elements s'). cropOK el"
  using runMoves_cropOK[OF _ assms(2)] assms(1) by (simp add: elements_handleMouseDown)

theorem crop_gesture_keeps_invariant_witness:
  "crop (elements (projr cropDrag) ! 0)
     = Some \<lparr>c_top = 95, c_right = 0, c_bottom = 0, c_left = 95\<rparr>
   \<and> cropOK (elements (projr cropDrag) ! 0)"
proof -
  define s' where "s' = projr cropDrag"
  have "cropDrag = Inr (projr cropDrag)"
    by (simp add: cropDrag_def oneImage_def addImageElement_def initialState_def
        toString_1003 startCropping_def falsy_def handleMouseDown_def
        handleMouseMove_def moveElement_def cropMove_def jsDiv_def bindE_def Let_def
        zeroCrop_def)
  then have "cropDrag = Inr s'" by (simp add: s'_def)
  then have run: "runMoves [(30, 15), (300, 300)]
      (handleMouseDown (0, 0) ''1003'' Crop (Some LT) (startCropping oneImage)) = Inr s'"
    by (simp only: cropDrag_def)
  have ev: "map crop (elements (projr cropDrag))
       = [Some \<lparr>c_top = 95, c_right = 0, c_bottom = 0, c_left = 95\<rparr>]"
    by (simp add: cropDrag_def oneImage_def addImageElement_def initialState_def
        toString_1003 startCropping_def falsy_def handleMouseDown_def
        handleMouseMove_def moveElement_def cropMove_def jsDiv_def bindE_def Let_def
        zeroCrop_def)
  have inv: "\<forall>el\<in>set (elements (startCropping oneImage)). cropOK el"
    by (simp add: startCropping_def oneImage_def addImageElement_def initialState_def
        cropOK_def zeroCrop_def Let_def)
  have len: "length (elements (projr cropDrag)) = 1"
    using arg_cong[OF ev, of length] by simp
  have c: "crop (elements (projr cropDrag) ! 0)
     = Some \<lparr>c_top = 95, c_right = 0, c_bottom = 0, c_left = 95\<rparr>"
    using arg_cong[OF ev, of "\<lambda>xs. xs ! 0"] len by simp
  have "\<forall>el\<in>set (elements s'). cropOK el"
    by (rule crop_gesture_keeps_invariant [OF inv run])
  then have "cropOK (elements (projr cropDrag) ! 0)"
    using len by (simp add: s'_def)
  then show ?thesis using c by simp
qed

section \<open>Properties of resize gestures\<close>

lemma sameButSize_refl: "sameButSize v v"
  by (cases v) simp_all

lemma sameButSize_specResize: "sameButSize v (specResize d v)"
  by (cases v) simp_all

lemma resizeElement_from_snapshot:
  assumes "sameButSize (variant el0) v"
    and "\<forall>im. variant el0 = ImageV im \<longrightarrow> img_aspectRatio im \<noteq> 0"
  shows "resizeElement (SnapEl el0) d (el0\<lparr>variant := v\<rparr>)
           = Inr (el0\<lparr>variant := specResize d (variant el0)\<rparr>)"
proof (cases "variant el0")
  case (TextV a)
  then obtain b where v: "v = TextV b" and b: "b = a\<lparr>fontSize := fontSize b\<rparr>"
    using assms(1) by (cases v) auto
  have "b\<lparr>fontSize := x\<rparr> = a\<lparr>fontSize := x\<rparr>" for x
    by (subst b) simp
  then show ?thesis
    using TextV v by (simp add: resizeElement_def snap_fontSize_def prop_fontSize_def)
next
  case (ImageV a)
  then obtain b where v: "v = ImageV b"
    and b: "b = a\<lparr>img_width := img_width b, img_height := img_height b\<rparr>"
    using assms(1) by (cases v) auto
  have "b\<lparr>img_width := x, img_height := y\<rparr> = a\<lparr>img_width := x, img_height := y\<rparr>" for x y
    by (subst b) simp
  moreover have "img_aspectRatio a \<noteq> 0" using assms(2) ImageV by simp
  ultimately show ?thesis
    using ImageV v
    by (simp add: resizeElement_def snap_width_def snap_aspectRatio_def prop_width_def
        prop_aspectRatio_def jsDiv_def Let_def)
next
  case (ShapeV a)
  then obtain b where v: "v = ShapeV b"
    and b: "b = a\<lparr>shp_width := shp_width b, shp_height := shp_height b\<rparr>"
    using assms(1) by (cases v) auto
  have "b\<lparr>shp_width := x, shp_height := y\<rparr> = a\<lparr>shp_width := x, shp_height := y\<rparr>" for x y
    by (subst b) simp
  then show ?thesis
    using ShapeV v
    by (simp add: resizeElement_def snap_width_def snap_height_def prop_width_def
        prop_height_def)
qed

lemma find_distinct_map_id:
  assumes "distinct (map f xs)" and "find (\<lambda>t. f t = k) xs = Some e0"
  shows "map (\<lambda>e. if f e = k then e0 else e) xs = xs"
proof -
  from assms(2) have e0: "e0 \<in> set xs" "f e0 = k"
    by (auto simp: find_Some_iff)
  have inj: "inj_on f (set xs)" using assms(1) by (simp add: distinct_map)
  have "e = e0" if "e \<in> set xs" "f e = k" for e
    using inj that e0 by (auto dest: inj_onD)
  then show ?thesis by (simp add: map_idI)
qed

lemma handleMouseMove_resizing:
  assumes "\<not> isDragging s" "isCroppingDrag s = None" "ident \<noteq> ''bg''" "ident \<noteq> []"
    and "sameButSize (variant el0) v"
    and "\<forall>im. variant el0 = ImageV im \<longrightarrow> img_aspectRatio im \<noteq> 0"
    and "el_id el0 = ident"
  shows "handleMouseMove xy (resizing s ident start el0 v)
           = Inr (resizing s ident start el0 (specResize (fst xy - fst start) (variant el0)))"
proof -
  let ?t = "resizing s ident start el0 v"
  let ?d = "fst xy - fst start"
  have m: "moveElement ?t ?d dy el
      = Inr (if el_id el = ident then el0\<lparr>variant := specResize ?d (variant el0)\<rparr> else el)"
    if "el \<in> set (elements ?t)" for el dy
  proof (cases "el_id el = ident")
    case False
    then show ?thesis by (simp add: moveElement_def resizing_def)
  next
    case True
    then have "el = el0\<lparr>variant := v\<rparr>" using that assms(7) by (auto simp: resizing_def)
    then show ?thesis
      using True assms(1,2) resizeElement_from_snapshot[OF assms(5,6)]
      by (simp add: moveElement_def resizing_def)
  qed
  have "mapE (moveElement ?t ?d (snd xy - snd start)) (elements ?t)
     = Inr (map (\<lambda>el. if el_id el = ident then el0\<lparr>variant := specResize ?d (variant el0)\<rparr> else el)
              (elements ?t))"
    by (rule mapE_map) (rule m)
  moreover have "map (\<lambda>el. if el_id el = ident then el0\<lparr>variant := specResize ?d (variant el0)\<rparr> else el)
              (elements ?t)
     = map (\<lambda>el. if el_id el = ident then el0\<lparr>variant := specResize ?d (variant el0)\<rparr> else el)
              (elements s)"
    using assms(7) by (simp add: resizing_def comp_def)
  ultimately show ?thesis
    using assms(1-4)
    by (simp add: handleMouseMove_def falsy_def Let_def resizing_def)
qed

lemma runMoves_resizing:
  assumes "\<not> isDragging s" "isCroppingDrag s = None" "ident \<noteq> ''bg''" "ident \<noteq> []"
    and "sameButSize (variant el0) v"
    and "\<forall>im. variant el0 = ImageV im \<longrightarrow> img_aspectRatio im \<noteq> 0"
    and "el_id el0 = ident"
  shows "runMoves (ms @ [xy]) (resizing s ident start el0 v)
           = Inr (resizing s ident start el0 (specResize (fst xy - fst start) (variant el0)))"
  using assms(5)
proof (induction ms arbitrary: v)
  case Nil
  then show ?case
    using handleMouseMove_resizing[OF assms(1-4) _ assms(6,7)] by simp
next
  case (Cons m ms)
  show ?case
    using handleMouseMove_resizing[OF assms(1-4) Cons.prems assms(6,7), of m start]
      Cons.IH[OF sameButSize_specResize] by simp
qed

lemma handleMouseDown_resizing:
  assumes "\<not> isErasing s" "\<not> (isCropping s \<and> Some ident \<noteq> selectedId s)" "ident \<noteq> ''bg''"
    and "distinct (map el_id (elements s))"
    and "find (\<lambda>t. el_id t = ident) (elements s) = Some el0"
  shows "handleMouseDown start ident Resize None s = resizing s ident start el0 (variant el0)"
proof -
  have e: "el0\<lparr>variant := variant el0\<rparr> = el0" by simp
  have "map (\<lambda>el. if el_id el = ident then el0\<lparr>variant := variant el0\<rparr> else el) (elements s)
      = elements s"
    unfolding e by (rule find_distinct_map_id[OF assms(4,5)])
  then have r: "resizing s ident start el0 (variant el0)
      = s\<lparr>selectedId := Some ident, dragStart := start,
          initialElementState := SnapEl el0, isResizing := True\<rparr>"
    by (simp add: resizing_def)
  have c: "\<not> (isCropping s \<and> Some ident \<noteq> selectedId s)" by (rule assms(2))
  show ?thesis
    unfolding r handleMouseDown_def using assms(1,3,5) c
    by (auto simp: Let_def)
qed

text \<open>
  Claim C5.  A resize gesture starts on the element \<open>el0\<close> with id \<open>ident\<close> (ids
  unique; eraser closed, no crop mode on another element, no other gesture active) at
  pointer position \<open>start\<close>.  After any pointer-moves, the last of them to \<open>xy\<close>, the
  element is \<open>el0\<close> with the resize rule of the specification applied to the
  attributes of \<open>el0\<close> and the total horizontal delta \<open>fst xy - fst start\<close>; the
  moves in between leave no trace, and no other element changes.  For an image the
  aspect ratio is not zero.
\<close>

theorem resize_from_snapshot:
  assumes "\<not> isErasing s" and "\<not> (isCropping s \<and> Some ident \<noteq> selectedId s)"
    and "\<not> isDragging s" and "isCroppingDrag s = None"
    and "ident \<noteq> ''bg''" and "ident \<noteq> []"
    and "distinct (map el_id (elements s))"
    and "find (\<lambda>t. el_id t = ident) (elements s) = Some el0"
    and "\<forall>im. variant el0 = ImageV im \<longrightarrow> img_aspectRatio im \<noteq> 0"
  shows "\<exists>s'. runMoves (ms @ [xy]) (handleMouseDown start ident Resize None s) = Inr s'
      \<and> elements s' =
          map (\<lambda>el. if el_id el = ident
                    then el0\<lparr>variant := specResize (fst xy - fst start) (variant el0)\<rparr>
                    else el)
              (elements s)"
proof -
  have id0: "el_id el0 = ident" using assms(8) by (auto simp: find_Some_iff)
  have "runMoves (ms @ [xy]) (handleMouseDown start ident Resize None s)
      = Inr (resizing s ident start el0 (specResize (fst xy - fst start) (variant el0)))"
    unfolding handleMouseDown_resizing[OF assms(1,2,5,7,8)]
    by (rule runMoves_resizing[OF assms(3,4,5,6) sameButSize_refl assms(9) id0])
  then show ?thesis by (simp add: resizing_def)
qed

theorem resize_from_snapshot_witness:
  "map variant (elements (projr (runMoves ([(7, 3)] @ [(50, 9)])
       (handleMouseDown (0, 0) ''1003'' Resize None oneImage))))
     = [ImageV \<lparr>img_src = ''data:image/png;base64,AAAA'', img_width = 250, img_height = 125,
                 img_aspectRatio = 2, img_borderRadius = Some 0\<rparr>]"
proof -
  have els: "elements oneImage =
     [\<lparr>el_id = ''1003'', el_x = 250, el_y = 250, rotation = 0, zIndex = 0,
        crop = Some zeroCrop,
        border = Some \<lparr>b_width = 0, b_style = Solid, b_color = ''#000000''\<rparr>,
        shadow = Some \<lparr>sh_color = ''#000000'', sh_opacity = 0.5, sh_x = 0, sh_y = 0, sh_blur = 0\<rparr>,
        el_opacity = None,
        variant = ImageV \<lparr>img_src = ''data:image/png;base64,AAAA'', img_width = 200,
                          img_height = 100, img_aspectRatio = 2, img_borderRadius = Some 0\<rparr>\<rparr>]"
    by (simp add: oneImage_def addImageElement_def initialState_def Let_def toString_1003)
  have st: "\<not> isErasing oneImage" "\<not> (isCropping oneImage \<and> Some ''1003'' \<noteq> selectedId oneImage)"
    "\<not> isDragging oneImage" "isCroppingDrag oneImage = None"
    by (simp_all add: oneImage_def addImageElement_def initialState_def Let_def)
  have ids: "''1003'' \<noteq> ''bg''" "''1003'' \<noteq> []" "distinct (map el_id (elements oneImage))"
    by (simp_all add: els)
  have f: "find (\<lambda>t. el_id t = ''1003'') (elements oneImage) = Some (hd (elements oneImage))"
    by (simp add: els)
  have ar: "\<forall>im. variant (hd (elements oneImage)) = ImageV im \<longrightarrow> img_aspectRatio im \<noteq> 0"
    by (simp add: els)
  obtain s' where s': "runMoves ([(7, 3)] @ [(50, 9)])
        (handleMouseDown (0, 0) ''1003'' Resize None oneImage) = Inr s'"
    "elements s' =
       map (\<lambda>el. if el_id el = ''1003''
                 then (hd (elements oneImage))
                        \<lparr>variant := specResize (fst ((50, 9) :: real \<times> real)
                                                  - fst ((0, 0) :: real \<times> real))
                                     (variant (hd (elements oneImage)))\<rparr>
                 else el)
           (elements oneImage)"
    using resize_from_snapshot [OF st ids(1,2,3) f ar, of "[(7, 3)]" "(50, 9)" "(0, 0)"]
    by blast
  show ?thesis
    unfolding s'(1) by (simp add: s'(2) els)
qed

section \<open>The aspect lock\<close>























lemma ratiosKept_Nil: "ratiosKept [] els"
  by (simp add: ratiosKept_def)










section \<open>Properties of the export\<close>






end
